theory Spec2Isabelle
  imports Main
begin

section \<open>Python strings\<close>

text \<open>
  Paths and user names are Python \<open>str\<close> values, modelled as \<open>string\<close>: the strings of
  the characters with a code point below 256 (Latin-1). On these \<open>str.lower\<close> maps
  \<open>A\<close>..\<open>Z\<close> and the capital letters from U+00C0 to U+00DE, the multiplication sign
  U+00D7 left out, to the letter 32 code points further on, and leaves every other
  character alone; \<open>str.strip\<close> removes the leading and trailing characters for which
  \<open>str.isspace\<close> holds.
\<close>

definition ascii_uppercase :: string where
  "ascii_uppercase = ''ABCDEFGHIJKLMNOPQRSTUVWXYZ''"

definition ascii_lowercase :: string where
  "ascii_lowercase = ''abcdefghijklmnopqrstuvwxyz''"

definition latin1_uppercase :: string where
  "latin1_uppercase =
     [CHR 0xC0, CHR 0xC1, CHR 0xC2, CHR 0xC3, CHR 0xC4, CHR 0xC5, CHR 0xC6, CHR 0xC7,
      CHR 0xC8, CHR 0xC9, CHR 0xCA, CHR 0xCB, CHR 0xCC, CHR 0xCD, CHR 0xCE, CHR 0xCF,
      CHR 0xD0, CHR 0xD1, CHR 0xD2, CHR 0xD3, CHR 0xD4, CHR 0xD5, CHR 0xD6,
      CHR 0xD8, CHR 0xD9, CHR 0xDA, CHR 0xDB, CHR 0xDC, CHR 0xDD, CHR 0xDE]"

definition latin1_lowercase :: string where
  "latin1_lowercase =
     [CHR 0xE0, CHR 0xE1, CHR 0xE2, CHR 0xE3, CHR 0xE4, CHR 0xE5, CHR 0xE6, CHR 0xE7,
      CHR 0xE8, CHR 0xE9, CHR 0xEA, CHR 0xEB, CHR 0xEC, CHR 0xED, CHR 0xEE, CHR 0xEF,
      CHR 0xF0, CHR 0xF1, CHR 0xF2, CHR 0xF3, CHR 0xF4, CHR 0xF5, CHR 0xF6,
      CHR 0xF8, CHR 0xF9, CHR 0xFA, CHR 0xFB, CHR 0xFC, CHR 0xFD, CHR 0xFE]"

definition lower_char :: "char \<Rightarrow> char" where
  "lower_char c =
     (case map_of (zip (ascii_uppercase @ latin1_uppercase)
                       (ascii_lowercase @ latin1_lowercase)) c of
        Some l \<Rightarrow> l
      | None \<Rightarrow> c)"

definition lower :: "string \<Rightarrow> string" where
  "lower s = map lower_char s"

text \<open>\<open>s.startswith(p)\<close>.\<close>

fun startswith :: "string \<Rightarrow> string \<Rightarrow> bool" where
  "startswith s [] = True"
| "startswith [] (p # ps) = False"
| "startswith (c # cs) (p # ps) = (c = p \<and> startswith cs ps)"

text \<open>\<open>sub in s\<close>: \<open>sub\<close> occurs in \<open>s\<close> as a contiguous substring.\<close>

fun contains :: "string \<Rightarrow> string \<Rightarrow> bool" where
  "contains [] sub = (sub = [])"
| "contains (c # cs) sub = (startswith (c # cs) sub \<or> contains cs sub)"

text \<open>
  \<open>str.isspace\<close> on one character: the ASCII white space, the separators U+001C to
  U+001F, the next-line character U+0085 and the no-break space U+00A0.
\<close>

definition isspace :: "char \<Rightarrow> bool" where
  "isspace c = (of_char c \<in> {9, 10, 11, 12, 13, 28, 29, 30, 31, 32, 133, 160 :: nat})"

definition strip :: "string \<Rightarrow> string" where
  "strip s = rev (dropWhile isspace (rev (dropWhile isspace s)))"

text \<open>
  \<open>os.path.join(a, b)\<close> of \<open>posixpath\<close>, for two arguments: an absolute \<open>b\<close> replaces
  \<open>a\<close>; otherwise \<open>b\<close> is appended, after a separator unless \<open>a\<close> is empty or ends
  with one.
\<close>

definition os_path_join :: "string \<Rightarrow> string \<Rightarrow> string" where
  "os_path_join a b =
     (if startswith b ''/'' then b
      else if a = [] \<or> last a = CHR ''/'' then a @ b
      else a @ ''/'' @ b)"

section \<open>The file system\<close>

text \<open>
  A node of the tree is a regular file carrying its access-control metadata (of a type
  \<open>'m\<close> that the program never looks at), a symbolic link (the flag tells whether it
  points to a directory) or a directory with its listing. The listing is in the order in
  which \<open>os.scandir\<close> yields the entries, which is the order \<open>os.walk\<close> uses.
\<close>

datatype 'm node = File 'm | Link bool | Dir "(string \<times> 'm node) list"

text \<open>\<open>entry.is_dir()\<close> inside \<open>os.walk\<close>: it follows symbolic links.\<close>

fun is_dir :: "'m node \<Rightarrow> bool" where
  "is_dir (Dir entries) = True"
| "is_dir (Link to_dir) = to_dir"
| "is_dir (File m) = False"

text \<open>
  \<open>os.walk(dirpath)\<close> with its default arguments (top-down, \<open>onerror=None\<close>,
  \<open>followlinks=False\<close>): the triple \<open>(dirpath, dirnames, filenames)\<close> of a directory comes
  first, then the walks of its subdirectories in the order of the listing. A symbolic link
  to a directory is listed among the directory names and not descended into; anything else
  that is not a directory is listed among the file names. Walking something that is not a
  directory yields nothing.
\<close>

fun os_walk :: "string \<Rightarrow> 'm node \<Rightarrow> (string \<times> string list \<times> string list) list" where
  "os_walk dirpath (Dir entries) =
     (dirpath,
      [name. (name, n) \<leftarrow> entries, is_dir n],
      [name. (name, n) \<leftarrow> entries, \<not> is_dir n])
     # concat (map (\<lambda>(name, n). os_walk (os_path_join dirpath name) n) entries)"
| "os_walk dirpath (Link to_dir) = []"
| "os_walk dirpath (File m) = []"

section \<open>Exceptions, log records and console output\<close>

text \<open>
  The exception classes the handlers of the program tell apart: \<open>FileNotFoundError\<close>,
  any other \<open>OSError\<close> (\<open>IOError\<close> is its alias), and any other subclass of
  \<open>Exception\<close> (a \<open>UnicodeEncodeError\<close>, a \<open>MarkupError\<close> of \<open>rich\<close>).
\<close>

datatype exn = FileNotFoundError | OSError | OtherException

datatype level = DEBUG | INFO | ERROR

fun levelno :: "level \<Rightarrow> nat" where
  "levelno DEBUG = 10"
| "levelno INFO = 20"
| "levelno ERROR = 40"

text \<open>One constructor for each message the program logs, with the values it formats in.\<close>

datatype message =
    LoggingToFile string
  | UserFileNotFound string
  | ErrorReadingUserFile string exn
  | LoadedUsers string "string list"
  | ExcludeFileNotFound string
  | ErrorReadingExcludeFile string exn
  | LoadedExcludePatterns string
  | DirectoryNotFound string
  | SkippingExcludedPath string
  | UsersFoundWithPermissions string
  | ErrorCheckingPermissions string exn
  | RemovingPermissions "string list" string
  | ErrorRemovingPermissions string exn
  | RemovalCompleted
  | CheckCompleted

text \<open>
  One constructor for each call that writes to the console, with the values formatted
  into its argument: the calls of \<open>rprint\<close> by their markup, and the one call of the
  built-in \<open>print\<close> in \<open>remove_permissions\<close>.
\<close>

datatype out_line =
    Red_UserFileNotFound
  | Red_CouldNotReadUserFile
  | Red_ExcludeFileNotFound
  | Red_CouldNotReadExcludeFile
  | Red_DirectoryNotFound string
  | Yellow_RemovingPermissions
  | Green_RemovalCompleted
  | Yellow_CheckingPermissions
  | Red_FollowingFiles
  | Blue_File string
  | Green_NoFilesFound
  | Print_Removing "string list" string

text \<open>
  The state of a run.

  \<^item> \<open>fs\<close> maps a path to the node it names once symbolic links are followed (\<open>None\<close>: no
    such path): the directories, the files and their access-control metadata, not the
    contents of the files.
  \<^item> \<open>file_lines\<close> is what opening a text file for reading and iterating over it
    yields when \<open>main\<close> does so, or the exception raised.
  \<^item> \<open>open_handler\<close> is what \<open>logging.FileHandler\<close> does on a path: it raises, or it
    opens the file for appending, creating it when it does not exist; the result is then
    the file system that the creation leaves.
  \<^item> \<open>console_error\<close> is the exception that writing a line to the console raises, if any:
    the encoding of \<open>sys.stdout\<close> may not have a character of the line, the stream may
    be closed, and \<open>rich\<close> rejects a text whose square brackets are not valid markup.
  \<^item> \<open>log\<close> holds the records the root logger has passed to its handlers (the console
    handler of \<open>basicConfig\<close>, and the file handler once \<open>main\<close> has added it), and
    \<open>stdout\<close> the lines written to the console, oldest first.
\<close>

record 'm state =
  fs :: "string \<Rightarrow> 'm node option"
  file_lines :: "string \<Rightarrow> exn + string list"
  open_handler :: "string \<Rightarrow> exn + (string \<Rightarrow> 'm node option)"
  console_error :: "out_line \<Rightarrow> exn option"
  log :: "(level \<times> message) list"
  stdout :: "out_line list"

text \<open>
  \<open>logging.basicConfig(level=logging.INFO)\<close> at the top of the module: the root logger
  drops every record below \<open>INFO\<close>, whatever the level of a handler. A handler that
  fails to write a record reports that on \<open>stderr\<close> and raises nothing.
\<close>

definition root_level :: level where
  "root_level = INFO"

definition logging_log :: "level \<Rightarrow> message \<Rightarrow> 'm state \<Rightarrow> 'm state" where
  "logging_log lvl msg s =
     (if levelno root_level \<le> levelno lvl then s\<lparr>log := log s @ [(lvl, msg)]\<rparr> else s)"

definition logging_debug :: "message \<Rightarrow> 'm state \<Rightarrow> 'm state" where
  "logging_debug = logging_log DEBUG"

definition logging_info :: "message \<Rightarrow> 'm state \<Rightarrow> 'm state" where
  "logging_info = logging_log INFO"

definition logging_error :: "message \<Rightarrow> 'm state \<Rightarrow> 'm state" where
  "logging_error = logging_log ERROR"

text \<open>
  Writing a line to the console: the line is written, or the call raises and nothing is
  written. The result is \<open>Inr\<close> of the state after the call, or \<open>Inl\<close> of the exception
  and the state in which it is raised.
\<close>

definition console_write :: "out_line \<Rightarrow> 'm state \<Rightarrow> exn \<times> 'm state + 'm state" where
  "console_write line s =
     (case console_error s line of
        Some e \<Rightarrow> Inl (e, s)
      | None \<Rightarrow> Inr (s\<lparr>stdout := stdout s @ [line]\<rparr>))"

definition print :: "out_line \<Rightarrow> 'm state \<Rightarrow> exn \<times> 'm state + 'm state" where
  "print = console_write"

definition rprint :: "out_line \<Rightarrow> 'm state \<Rightarrow> exn \<times> 'm state + 'm state" where
  "rprint = console_write"

section \<open>pathspec\<close>

text \<open>
  A \<open>pathspec.PathSpec\<close> object: its compiled patterns and its method \<open>match_file\<close>.
  The library is not part of the repository, so the matching of gitignore patterns is a
  field of the object. A \<open>PathSpec\<close> is true in a condition when it has a pattern (its
  \<open>__len__\<close>).
\<close>

record PathSpec =
  patterns :: "string list"
  match_file :: "string \<Rightarrow> bool"

text \<open>The test \<open>exclude_spec and exclude_spec.match_file(filepath)\<close> of both passes.\<close>

definition excluded :: "PathSpec option \<Rightarrow> string \<Rightarrow> bool" where
  "excluded exclude_spec filepath =
     (case exclude_spec of
        None \<Rightarrow> False
      | Some spec \<Rightarrow> patterns spec \<noteq> [] \<and> match_file spec filepath)"

section \<open>load_users and load_excludes\<close>

definition load_users :: "string \<Rightarrow> 'm state \<Rightarrow> (exn + string list) \<times> 'm state" where
  "load_users user_file s =
     (case file_lines s user_file of
        Inr lines \<Rightarrow> (Inr [strip line. line \<leftarrow> lines, strip line \<noteq> []], s)
      | Inl FileNotFoundError \<Rightarrow>
          (Inl FileNotFoundError, logging_error (UserFileNotFound user_file) s)
      | Inl OSError \<Rightarrow>
          (Inl OSError, logging_error (ErrorReadingUserFile user_file OSError) s)
      | Inl OtherException \<Rightarrow> (Inl OtherException, s))"

text \<open>
  \<open>from_lines\<close> stands for \<open>pathspec.PathSpec.from_lines("gitwildmatch", _)\<close>, which
  raises on a pattern it cannot compile.
\<close>

definition load_excludes ::
  "(string list \<Rightarrow> exn + PathSpec) \<Rightarrow> string \<Rightarrow> 'm state \<Rightarrow> (exn + PathSpec) \<times> 'm state" where
  "load_excludes from_lines exclude_file s =
     (case (case file_lines s exclude_file of
              Inr lines \<Rightarrow> from_lines [strip line. line \<leftarrow> lines, strip line \<noteq> []]
            | Inl e \<Rightarrow> Inl e) of
        Inr spec \<Rightarrow> (Inr spec, s)
      | Inl FileNotFoundError \<Rightarrow>
          (Inl FileNotFoundError, logging_error (ExcludeFileNotFound exclude_file) s)
      | Inl OSError \<Rightarrow>
          (Inl OSError, logging_error (ErrorReadingExcludeFile exclude_file OSError) s)
      | Inl OtherException \<Rightarrow> (Inl OtherException, s))"

section \<open>check_permissions and remove_permissions\<close>

text \<open>
  Both passes test \<open>any(user.lower() in filepath.lower() for user in users)\<close> inside
  their \<open>try\<close> block. On strings the test cannot raise. The source marks it as a
  placeholder for a real inspection (\<open>os.stat\<close>, ACL reads), which can; so the passes are
  modelled over any check that returns its answer or the exception it raised, and the
  program is the instance at \<open>placeholder_check\<close>.
\<close>

type_synonym check = "string list \<Rightarrow> string \<Rightarrow> exn + bool"

definition placeholder_check :: check where
  "placeholder_check users filepath =
     Inr (list_ex (\<lambda>user. contains (lower filepath) (lower user)) users)"

text \<open>\<open>os.walk(directory)\<close> in a state. A path that names nothing yields nothing.\<close>

definition walk :: "'m state \<Rightarrow> string \<Rightarrow> (string \<times> string list \<times> string list) list" where
  "walk s directory =
     (case fs s directory of
        Some n \<Rightarrow> os_walk directory n
      | None \<Rightarrow> [])"

text \<open>
  One turn of the inner loop of \<open>check_permissions\<close>, on the list built so far and
  the state.
\<close>

definition check_file ::
  "check \<Rightarrow> string list \<Rightarrow> PathSpec option \<Rightarrow> string \<Rightarrow> string \<Rightarrow>
   string list \<times> 'm state \<Rightarrow> string list \<times> 'm state" where
  "check_file chk users exclude_spec root file acc =
     (case acc of (files_with_permissions, s) \<Rightarrow>
        let filepath = os_path_join root file in
        if excluded exclude_spec filepath
        then (files_with_permissions, logging_debug (SkippingExcludedPath filepath) s)
        else (case chk users filepath of
                Inr has_permissions \<Rightarrow>
                  if has_permissions
                  then (files_with_permissions @ [filepath],
                        logging_info (UsersFoundWithPermissions filepath) s)
                  else (files_with_permissions, s)
              | Inl e \<Rightarrow>
                  (files_with_permissions,
                   logging_error (ErrorCheckingPermissions filepath e) s)))"

text \<open>
  The two nested loops. The walk only reads the tree and the loop body never writes to it,
  so the generator's triples are computed from the state the pass starts in.
\<close>

definition check_permissions_with ::
  "check \<Rightarrow> string \<Rightarrow> string list \<Rightarrow> PathSpec option \<Rightarrow> 'm state \<Rightarrow>
   string list \<times> 'm state" where
  "check_permissions_with chk directory users exclude_spec s =
     fold (\<lambda>(root, dirs, files). fold (check_file chk users exclude_spec root) files)
       (walk s directory) ([], s)"

definition check_permissions ::
  "string \<Rightarrow> string list \<Rightarrow> PathSpec option \<Rightarrow> 'm state \<Rightarrow> string list \<times> 'm state" where
  "check_permissions = check_permissions_with placeholder_check"

text \<open>
  One turn of the inner loop of \<open>remove_permissions\<close>. The \<open>try\<close> block holds the test,
  the \<open>print\<close> and the \<open>logging.info\<close>; an exception of the test or of the \<open>print\<close>
  goes to the \<open>except\<close> clause, which logs it, and then nothing was written and the
  \<open>logging.info\<close> is not reached. Nothing in the block touches the file: the change of
  permissions is a comment in the source.
\<close>

definition remove_file ::
  "check \<Rightarrow> string list \<Rightarrow> PathSpec option \<Rightarrow> string \<Rightarrow> string \<Rightarrow> 'm state \<Rightarrow> 'm state" where
  "remove_file chk users exclude_spec root file s =
     (let filepath = os_path_join root file in
      if excluded exclude_spec filepath
      then logging_debug (SkippingExcludedPath filepath) s
      else (case (case chk users filepath of
                    Inr matched \<Rightarrow>
                      if matched
                      then (case print (Print_Removing users filepath) s of
                              Inr s1 \<Rightarrow> Inr (logging_info (RemovingPermissions users filepath) s1)
                            | Inl (e, s1) \<Rightarrow> Inl (e, s1))
                      else Inr s
                  | Inl e \<Rightarrow> Inl (e, s)) of
              Inr s1 \<Rightarrow> s1
            | Inl (e, s1) \<Rightarrow> logging_error (ErrorRemovingPermissions filepath e) s1))"

definition remove_permissions_with ::
  "check \<Rightarrow> string \<Rightarrow> string list \<Rightarrow> PathSpec option \<Rightarrow> 'm state \<Rightarrow> 'm state" where
  "remove_permissions_with chk directory users exclude_spec s =
     fold (\<lambda>(root, dirs, files). fold (remove_file chk users exclude_spec root) files)
       (walk s directory) s"

definition remove_permissions ::
  "string \<Rightarrow> string list \<Rightarrow> PathSpec option \<Rightarrow> 'm state \<Rightarrow> 'm state" where
  "remove_permissions = remove_permissions_with placeholder_check"

section \<open>main\<close>

text \<open>The parsed command line (\<open>argparse\<close> has run).\<close>

record args =
  arg_directory :: string
  arg_users :: string
  arg_remove :: bool
  arg_log_file :: "string option"
  arg_exclude :: "string option"

text \<open>
  How \<open>main\<close> ends: it returns, \<open>sys.exit(n)\<close> is called, or an exception that no
  handler catches leaves it.
\<close>

datatype exit_status = Returned | SystemExit nat | Uncaught exn

text \<open>\<open>os.path.isdir\<close>.\<close>

definition os_path_isdir :: "'m state \<Rightarrow> string \<Rightarrow> bool" where
  "os_path_isdir s path = (case fs s path of Some (Dir entries) \<Rightarrow> True | _ \<Rightarrow> False)"

text \<open>
  The blocks of \<open>main\<close> in the order of the source; each ends the run (\<open>Inl\<close>) or hands
  on to the next (\<open>Inr\<close>). First the log file, when one is given and its name is not
  empty: the handler opens the file at once, which creates it.
\<close>

definition main_log_file :: "args \<Rightarrow> 'm state \<Rightarrow> exit_status \<times> 'm state + 'm state" where
  "main_log_file a s =
     (case arg_log_file a of
        None \<Rightarrow> Inr s
      | Some path \<Rightarrow>
          if path = [] then Inr s
          else (case open_handler s path of
                  Inl e \<Rightarrow> Inl (Uncaught e, s)
                | Inr fs' \<Rightarrow> Inr (logging_info (LoggingToFile path) (s\<lparr>fs := fs'\<rparr>))))"

text \<open>
  The users. An exception that \<open>rprint\<close> raises inside an \<open>except\<close> clause is caught by
  nothing, and \<open>sys.exit(1)\<close> is not reached.
\<close>

definition main_users ::
  "args \<Rightarrow> 'm state \<Rightarrow> exit_status \<times> 'm state + string list \<times> 'm state" where
  "main_users a s =
     (case load_users (arg_users a) s of
        (Inr users, s1) \<Rightarrow> Inr (users, logging_info (LoadedUsers (arg_users a) users) s1)
      | (Inl FileNotFoundError, s1) \<Rightarrow>
          (case rprint Red_UserFileNotFound s1 of
             Inr s2 \<Rightarrow> Inl (SystemExit 1, s2)
           | Inl (e, s2) \<Rightarrow> Inl (Uncaught e, s2))
      | (Inl OSError, s1) \<Rightarrow>
          (case rprint Red_CouldNotReadUserFile s1 of
             Inr s2 \<Rightarrow> Inl (SystemExit 1, s2)
           | Inl (e, s2) \<Rightarrow> Inl (Uncaught e, s2))
      | (Inl OtherException, s1) \<Rightarrow> Inl (Uncaught OtherException, s1))"

definition main_excludes ::
  "(string list \<Rightarrow> exn + PathSpec) \<Rightarrow> args \<Rightarrow> 'm state \<Rightarrow>
   exit_status \<times> 'm state + PathSpec option \<times> 'm state" where
  "main_excludes from_lines a s =
     (case arg_exclude a of
        None \<Rightarrow> Inr (None, s)
      | Some path \<Rightarrow>
          if path = [] then Inr (None, s)
          else (case load_excludes from_lines path s of
                  (Inr spec, s1) \<Rightarrow> Inr (Some spec, logging_info (LoadedExcludePatterns path) s1)
                | (Inl FileNotFoundError, s1) \<Rightarrow>
                    (case rprint Red_ExcludeFileNotFound s1 of
                       Inr s2 \<Rightarrow> Inl (SystemExit 1, s2)
                     | Inl (e, s2) \<Rightarrow> Inl (Uncaught e, s2))
                | (Inl OSError, s1) \<Rightarrow>
                    (case rprint Red_CouldNotReadExcludeFile s1 of
                       Inr s2 \<Rightarrow> Inl (SystemExit 1, s2)
                     | Inl (e, s2) \<Rightarrow> Inl (Uncaught e, s2))
                | (Inl OtherException, s1) \<Rightarrow> Inl (Uncaught OtherException, s1)))"

definition main_directory :: "args \<Rightarrow> 'm state \<Rightarrow> exit_status \<times> 'm state + 'm state" where
  "main_directory a s =
     (if \<not> os_path_isdir s (arg_directory a)
      then (case rprint (Red_DirectoryNotFound (arg_directory a)) s of
              Inr s1 \<Rightarrow> Inl (SystemExit 1, logging_error (DirectoryNotFound (arg_directory a)) s1)
            | Inl (e, s1) \<Rightarrow> Inl (Uncaught e, s1))
      else Inr s)"

text \<open>The setup: the four blocks in a row, up to line 233 of the source.\<close>

definition main_setup ::
  "(string list \<Rightarrow> exn + PathSpec) \<Rightarrow> args \<Rightarrow> 'm state \<Rightarrow>
   exit_status \<times> 'm state + string list \<times> PathSpec option \<times> 'm state" where
  "main_setup from_lines a s =
     (case main_log_file a s of
        Inl stop \<Rightarrow> Inl stop
      | Inr s1 \<Rightarrow>
     (case main_users a s1 of
        Inl stop \<Rightarrow> Inl stop
      | Inr (users, s2) \<Rightarrow>
     (case main_excludes from_lines a s2 of
        Inl stop \<Rightarrow> Inl stop
      | Inr (exclude_spec, s3) \<Rightarrow>
     (case main_directory a s3 of
        Inl stop \<Rightarrow> Inl stop
      | Inr s4 \<Rightarrow> Inr (users, exclude_spec, s4)))))"

text \<open>The loop that prints the matches of the audit, one \<open>rprint\<close> for each.\<close>

fun rprint_files :: "string list \<Rightarrow> 'm state \<Rightarrow> exn \<times> 'm state + 'm state" where
  "rprint_files [] s = Inr s"
| "rprint_files (file # files) s =
     (case rprint (Blue_File file) s of
        Inr s1 \<Rightarrow> rprint_files files s1
      | Inl (e, s1) \<Rightarrow> Inl (e, s1))"

text \<open>
  The two modes, from line 235 on: the only calls of \<open>remove_permissions\<close> and of
  \<open>check_permissions\<close>, each right after the line that announces the pass.
\<close>

definition main_mode ::
  "args \<Rightarrow> string list \<Rightarrow> PathSpec option \<Rightarrow> 'm state \<Rightarrow> exit_status \<times> 'm state" where
  "main_mode a users exclude_spec s =
     (if arg_remove a
      then (case rprint Yellow_RemovingPermissions s of
              Inl (e, s1) \<Rightarrow> (Uncaught e, s1)
            | Inr s1 \<Rightarrow>
                (case rprint Green_RemovalCompleted
                        (remove_permissions (arg_directory a) users exclude_spec s1) of
                   Inl (e, s2) \<Rightarrow> (Uncaught e, s2)
                 | Inr s2 \<Rightarrow> (Returned, logging_info RemovalCompleted s2)))
      else (case rprint Yellow_CheckingPermissions s of
              Inl (e, s1) \<Rightarrow> (Uncaught e, s1)
            | Inr s1 \<Rightarrow>
                (case check_permissions (arg_directory a) users exclude_spec s1 of
                   (files_with_permissions, s2) \<Rightarrow>
                     (case (if files_with_permissions \<noteq> []
                            then (case rprint Red_FollowingFiles s2 of
                                    Inr s3 \<Rightarrow> rprint_files files_with_permissions s3
                                  | Inl (e, s3) \<Rightarrow> Inl (e, s3))
                            else rprint Green_NoFilesFound s2) of
                        Inl (e, s4) \<Rightarrow> (Uncaught e, s4)
                      | Inr s4 \<Rightarrow> (Returned, logging_info CheckCompleted s4)))))"

definition main ::
  "(string list \<Rightarrow> exn + PathSpec) \<Rightarrow> args \<Rightarrow> 'm state \<Rightarrow> exit_status \<times> 'm state" where
  "main from_lines a s =
     (case main_setup from_lines a s of
        Inl stop \<Rightarrow> stop
      | Inr (users, exclude_spec, s1) \<Rightarrow> main_mode a users exclude_spec s1)"

section \<open>Notions the statements are about\<close>

text \<open>
  The paths a pass forms, in the order in which it forms them: \<open>os.path.join(root, file)\<close>
  for every file name of every triple of the walk.
\<close>

definition visited :: "'m state \<Rightarrow> string \<Rightarrow> string list" where
  "visited s directory =
     concat (map (\<lambda>(root, dirs, files). map (os_path_join root) files) (walk s directory))"

text \<open>The paths that get past the exclusion test and reach the \<open>try\<close> block.\<close>

definition scanned :: "'m state \<Rightarrow> string \<Rightarrow> PathSpec option \<Rightarrow> string list" where
  "scanned s directory exclude_spec =
     filter (\<lambda>filepath. \<not> excluded exclude_spec filepath) (visited s directory)"

text \<open>The records one scanned path adds to the log in the audit pass.\<close>

definition check_records :: "check \<Rightarrow> string list \<Rightarrow> string \<Rightarrow> (level \<times> message) list" where
  "check_records chk users filepath =
     (case chk users filepath of
        Inr has_permissions \<Rightarrow>
          if has_permissions then [(INFO, UsersFoundWithPermissions filepath)] else []
      | Inl e \<Rightarrow> [(ERROR, ErrorCheckingPermissions filepath e)])"

text \<open>
  The record that the removal pass logs for a path that the test has selected, on a
  console that answers a write as \<open>err\<close> says: the removal, when the line is written, and
  else the exception of the write. \<open>removal_announced\<close> tells whether the pass writes the
  line of a scanned path, and \<open>remove_records\<close> collects the records the path adds to the
  log.
\<close>

definition removal_record ::
  "(out_line \<Rightarrow> exn option) \<Rightarrow> string list \<Rightarrow> string \<Rightarrow> level \<times> message" where
  "removal_record err users filepath =
     (case err (Print_Removing users filepath) of
        None \<Rightarrow> (INFO, RemovingPermissions users filepath)
      | Some e \<Rightarrow> (ERROR, ErrorRemovingPermissions filepath e))"

definition removal_announced ::
  "check \<Rightarrow> (out_line \<Rightarrow> exn option) \<Rightarrow> string list \<Rightarrow> string \<Rightarrow> bool" where
  "removal_announced chk err users filepath =
     (chk users filepath = Inr True \<and> err (Print_Removing users filepath) = None)"

definition remove_records ::
  "check \<Rightarrow> (out_line \<Rightarrow> exn option) \<Rightarrow> string list \<Rightarrow> string \<Rightarrow> (level \<times> message) list" where
  "remove_records chk err users filepath =
     (case chk users filepath of
        Inr matched \<Rightarrow> if matched then [removal_record err users filepath] else []
      | Inl e \<Rightarrow> [(ERROR, ErrorRemovingPermissions filepath e)])"

text \<open>
  \<open>main\<close> announces the walk on the console right before it calls a pass; a run whose
  output holds neither announcement has not started one.
\<close>

definition walk_started :: "'m state \<Rightarrow> bool" where
  "walk_started s =
     (Yellow_CheckingPermissions \<in> set (stdout s) \<or> Yellow_RemovingPermissions \<in> set (stdout s))"

text \<open>
  The state in which \<open>main\<close> reads its files and tests its target: the one it starts in,
  with the file system as the opening of the log file leaves it.
\<close>

definition log_file_opened :: "args \<Rightarrow> 'm state \<Rightarrow> 'm state" where
  "log_file_opened a s =
     (case arg_log_file a of
        None \<Rightarrow> s
      | Some path \<Rightarrow>
          if path = [] then s
          else (case open_handler s path of
                  Inl e \<Rightarrow> s
                | Inr fs' \<Rightarrow> s\<lparr>fs := fs'\<rparr>))"

text \<open>
  A setup error: the user file cannot be read, an exclude file is given and cannot be
  read, or the target is not a directory.
\<close>

definition setup_error :: "args \<Rightarrow> 'm state \<Rightarrow> bool" where
  "setup_error a s =
     (isl (file_lines s (arg_users a))
      \<or> (case arg_exclude a of
            None \<Rightarrow> False
          | Some path \<Rightarrow> path \<noteq> [] \<and> isl (file_lines s path))
      \<or> \<not> os_path_isdir (log_file_opened a s) (arg_directory a))"

text \<open>
  Two states of one run that show the same files, directories and console and agree on
  whether a walk has been announced.
\<close>

definition same_world :: "'m state \<Rightarrow> 'm state \<Rightarrow> bool" where
  "same_world s s1 =
     (fs s1 = fs s \<and> file_lines s1 = file_lines s \<and> open_handler s1 = open_handler s
      \<and> console_error s1 = console_error s \<and> walk_started s1 = walk_started s)"

text \<open>The file paths of the walk of one node, in the order of the walk.\<close>

definition files_under :: "string \<Rightarrow> 'm node \<Rightarrow> string list" where
  "files_under dirpath n =
     concat (map (\<lambda>(root, dirs, files). map (os_path_join root) files) (os_walk dirpath n))"

section \<open>Example inputs\<close>

text \<open>
  Modelled from the spec: the program has no type of grants (it never reads the owner, the
  mode or an ACL of a file). The examples give files the grants of the spec's data model
  as their metadata: a principal and a permission kind.
\<close>

datatype permission_kind = Owner | Group_member | ACL_read | ACL_write | ACL_execute | ACL_full

type_synonym grant = "string \<times> permission_kind"

text \<open>
  Modelled from the spec: a grant is targeted when its principal is a revoked identity,
  and a remediated file keeps exactly the grants that are not targeted.
\<close>

definition targeted :: "string list \<Rightarrow> grant \<Rightarrow> bool" where
  "targeted users g = (fst g \<in> set users)"

definition without_targeted :: "string list \<Rightarrow> grant list \<Rightarrow> grant list" where
  "without_targeted users grants = filter (\<lambda>g. \<not> targeted users g) grants"

text \<open>
  A state whose only directory is \<open>/srv\<close>, holding the given tree; \<open>users.txt\<close> lists
  \<open>alice\<close> and \<open>bob\<close>, \<open>exclude.txt\<close> the pattern \<open>*.tmp\<close>; a log file is opened outside
  \<open>/srv\<close>; the console takes every line; nothing logged or printed.
\<close>

definition srv_state :: "'m node \<Rightarrow> 'm state" where
  "srv_state tree =
     \<lparr>fs = (\<lambda>path. if path = ''/srv'' then Some tree else None),
      file_lines = (\<lambda>path. if path = ''users.txt'' then Inr [''alice '', '' '', '' bob'']
                            else if path = ''exclude.txt'' then Inr [''*.tmp'']
                            else Inl FileNotFoundError),
      open_handler = (\<lambda>path. Inr (\<lambda>path. if path = ''/srv'' then Some tree else None)),
      console_error = (\<lambda>line. None),
      log = [],
      stdout = []\<rparr>"

text \<open>The scenario of the spec: a file owned by \<open>alice\<close> next to a file owned by \<open>bob\<close>.\<close>

definition owned_tree :: "grant list node" where
  "owned_tree =
     Dir [(''other.txt'', File [(''bob'', Owner)]),
          (''alice_owned.txt'', File [(''alice'', Owner), (''bob'', ACL_read)])]"

text \<open>Files owned by \<open>carol\<close> whose paths happen to spell other names.\<close>

definition carol_tree :: "grant list node" where
  "carol_tree =
     Dir [(''ALICE.txt'', File [(''carol'', Owner)]),
          (''bobsled'', Dir [(''notes.txt'', File [(''carol'', Owner)])]),
          (''readme'', File [(''carol'', Owner)])]"

definition tmp_tree :: "grant list node" where
  "tmp_tree = Dir [(''alice.tmp'', File [(''alice'', Owner)])]"

text \<open>
  A \<open>PathSpec\<close> with one pattern, whose \<open>match_file\<close> answers true on the paths that end
  in \<open>.tmp\<close>, as the pattern \<open>*.tmp\<close> does on the file \<open>/srv/alice.tmp\<close> of the
  example.
\<close>

definition tmp_spec :: PathSpec where
  "tmp_spec =
     \<lparr>patterns = [''*.tmp''],
      match_file = (\<lambda>path. startswith (rev path) (rev ''.tmp''))\<rparr>"

definition audit_args :: args where
  "audit_args =
     \<lparr>arg_directory = ''/srv'', arg_users = ''users.txt'', arg_remove = False,
      arg_log_file = None, arg_exclude = None\<rparr>"

text \<open>
  More command lines: a user file that does not exist, a target that does not exist, an
  exclude file; and a \<open>from_lines\<close> that compiles every pattern list to \<open>tmp_spec\<close>.
\<close>

definition missing_args :: args where
  "missing_args = audit_args\<lparr>arg_users := ''missing.txt''\<rparr>"

definition nowhere_args :: args where
  "nowhere_args = audit_args\<lparr>arg_directory := ''/nowhere''\<rparr>"


definition tmp_from_lines :: "string list \<Rightarrow> exn + PathSpec" where
  "tmp_from_lines lines = Inr tmp_spec"


text \<open>
  A console whose encoding is ASCII: writing a line raises \<open>UnicodeEncodeError\<close> when a
  value formatted into the line has a character above U+007F. The tree holds one file,
  whose name has the letter U+00E9 (e with an acute accent) before its extension;
  \<open>cafe_path\<close> is its path.
\<close>

fun line_values :: "out_line \<Rightarrow> string list" where
  "line_values (Red_DirectoryNotFound directory) = [directory]"
| "line_values (Blue_File file) = [file]"
| "line_values (Print_Removing users filepath) = users @ [filepath]"
| "line_values line = []"

definition ascii_console :: "out_line \<Rightarrow> exn option" where
  "ascii_console line =
     (if list_all (list_all (\<lambda>c. \<not> digit7 c)) (line_values line) then None
      else Some OtherException)"

definition cafe_name :: string where
  "cafe_name = ''alice_caf'' @ [CHR 0xE9] @ ''.txt''"

definition cafe_path :: string where
  "cafe_path = ''/srv/alice_caf'' @ [CHR 0xE9] @ ''.txt''"

definition cafe_tree :: "grant list node" where
  "cafe_tree = Dir [(cafe_name, File [(''alice'', Owner)])]"

definition ascii_state :: "grant list state" where
  "ascii_state = (srv_state cafe_tree)\<lparr>console_error := ascii_console\<rparr>"

section \<open>Strings\<close>

lemma startswith_iff: "startswith s p \<longleftrightarrow> (\<exists>suf. s = p @ suf)"
  by (induction s p rule: startswith.induct) auto

lemma contains_iff: "contains s sub \<longleftrightarrow> (\<exists>pre suf. s = pre @ sub @ suf)"
proof (induction s)
  case Nil
  show ?case by auto
next
  case (Cons c cs)
  show ?case
  proof
    assume "contains (c # cs) sub"
    then consider "startswith (c # cs) sub" | "contains cs sub" by auto
    then show "\<exists>pre suf. c # cs = pre @ sub @ suf"
    proof cases
      case 1
      then obtain suf where "c # cs = sub @ suf" by (auto simp: startswith_iff)
      then have "c # cs = [] @ sub @ suf" by simp
      then show ?thesis by blast
    next
      case 2
      then obtain pre suf where "cs = pre @ sub @ suf" using Cons.IH by auto
      then have "c # cs = (c # pre) @ sub @ suf" by simp
      then show ?thesis by blast
    qed
  next
    assume "\<exists>pre suf. c # cs = pre @ sub @ suf"
    then obtain pre suf where eq: "c # cs = pre @ sub @ suf" by auto
    show "contains (c # cs) sub"
    proof (cases pre)
      case Nil
      with eq have "startswith (c # cs) sub" by (auto simp: startswith_iff)
      then show ?thesis by simp
    next
      case (Cons a pre')
      with eq have "cs = pre' @ sub @ suf" by simp
      then have "contains cs sub" using Cons.IH by auto
      then show ?thesis by simp
    qed
  qed
qed

lemmas lower_simps =
  lower_def lower_char_def ascii_uppercase_def ascii_lowercase_def
  latin1_uppercase_def latin1_lowercase_def

lemma lower_latin1_example:
  "lower (''R'' @ [CHR 0xC9] @ ''SUM'' @ [CHR 0xC9] @ [CHR 0xD7] @ [CHR 0xDF]) =
     ''r'' @ [CHR 0xE9] @ ''sum'' @ [CHR 0xE9] @ [CHR 0xD7] @ [CHR 0xDF]"
  by (simp add: lower_simps)

lemma strip_example:
  "strip ([CHR 0xA0, CHR 0x09] @ ''alice smith'' @ [CHR 0x85, CHR 0x0A]) = ''alice smith''"
  by (simp add: strip_def isspace_def)

section \<open>The passes in closed form\<close>

lemma logging_debug_drop: "logging_debug msg s = s"
  by (simp add: logging_debug_def logging_log_def root_level_def)

lemma logging_info_eq: "logging_info msg s = s\<lparr>log := log s @ [(INFO, msg)]\<rparr>"
  by (simp add: logging_info_def logging_log_def root_level_def)

lemma logging_error_eq: "logging_error msg s = s\<lparr>log := log s @ [(ERROR, msg)]\<rparr>"
  by (simp add: logging_error_def logging_log_def root_level_def)

lemma check_file_eq:
  "check_file chk users exclude_spec root file (acc, s) =
     (acc @ filter (\<lambda>p. \<not> excluded exclude_spec p \<and> chk users p = Inr True) [os_path_join root file],
      s\<lparr>log := log s @ (if excluded exclude_spec (os_path_join root file) then []
                         else check_records chk users (os_path_join root file))\<rparr>)"
  by (simp add: check_file_def Let_def logging_debug_drop logging_info_eq logging_error_eq
      check_records_def split: sum.split)

lemma fold_check_file:
  "fold (check_file chk users exclude_spec root) files (acc, s) =
     (acc @ filter (\<lambda>p. \<not> excluded exclude_spec p \<and> chk users p = Inr True)
              (map (os_path_join root) files),
      s\<lparr>log := log s @ concat (map (\<lambda>p. if excluded exclude_spec p then []
                                         else check_records chk users p)
                                    (map (os_path_join root) files))\<rparr>)"
proof (induction files arbitrary: acc s)
  case Nil
  show ?case by simp
next
  case (Cons f files)
  show ?case
    by (simp only: fold_Cons comp_apply check_file_eq Cons.IH) simp
qed

lemma fold_check_walk:
  "fold (\<lambda>(root, dirs, files). fold (check_file chk users exclude_spec root) files) triples (acc, s) =
     (acc @ filter (\<lambda>p. \<not> excluded exclude_spec p \<and> chk users p = Inr True)
              (concat (map (\<lambda>(root, dirs, files). map (os_path_join root) files) triples)),
      s\<lparr>log := log s @ concat (map (\<lambda>p. if excluded exclude_spec p then []
                                         else check_records chk users p)
                    (concat (map (\<lambda>(root, dirs, files). map (os_path_join root) files) triples)))\<rparr>)"
proof (induction triples arbitrary: acc s)
  case Nil
  show ?case by simp
next
  case (Cons t triples)
  obtain root dirs files where t: "t = (root, dirs, files)"
    by (cases t) auto
  show ?case
    by (simp only: t fold_Cons comp_apply prod.case fold_check_file Cons.IH) simp
qed

lemma concat_map_if_filter:
  "concat (map (\<lambda>p. if P p then [] else f p) xs) = concat (map f (filter (\<lambda>p. \<not> P p) xs))"
  by (induction xs) auto

lemma check_permissions_with_eq:
  "check_permissions_with chk directory users exclude_spec s =
     (filter (\<lambda>p. chk users p = Inr True) (scanned s directory exclude_spec),
      s\<lparr>log := log s @ concat (map (check_records chk users) (scanned s directory exclude_spec))\<rparr>)"
  by (simp add: check_permissions_with_def fold_check_walk scanned_def visited_def
      concat_map_if_filter)

lemma remove_file_eq:
  "remove_file chk users exclude_spec root file s =
     s\<lparr>log := log s @ (if excluded exclude_spec (os_path_join root file) then []
                        else remove_records chk (console_error s) users (os_path_join root file)),
       stdout := stdout s @ map (Print_Removing users)
                   (filter (\<lambda>p. \<not> excluded exclude_spec p
                                \<and> removal_announced chk (console_error s) users p)
                      [os_path_join root file])\<rparr>"
  by (simp add: remove_file_def Let_def print_def console_write_def logging_debug_drop
      logging_info_eq logging_error_eq remove_records_def removal_record_def
      removal_announced_def split: sum.split option.split)

lemma fold_remove_file:
  "fold (remove_file chk users exclude_spec root) files s =
     s\<lparr>log := log s @ concat (map (\<lambda>p. if excluded exclude_spec p then []
                                        else remove_records chk (console_error s) users p)
                                   (map (os_path_join root) files)),
       stdout := stdout s @ map (Print_Removing users)
                   (filter (\<lambda>p. \<not> excluded exclude_spec p
                                \<and> removal_announced chk (console_error s) users p)
                      (map (os_path_join root) files))\<rparr>"
proof (induction files arbitrary: s)
  case Nil
  show ?case by simp
next
  case (Cons f files)
  have step: "fold (remove_file chk users exclude_spec root) (f # files) s =
        fold (remove_file chk users exclude_spec root) files
          (remove_file chk users exclude_spec root f s)"
    by simp
  have c: "console_error (remove_file chk users exclude_spec root f s) = console_error s"
    by (simp add: remove_file_eq)
  show ?case
    unfolding step Cons.IH c by (simp add: remove_file_eq)
qed

lemma fold_remove_walk:
  "fold (\<lambda>(root, dirs, files). fold (remove_file chk users exclude_spec root) files) triples s =
     s\<lparr>log := log s @ concat (map (\<lambda>p. if excluded exclude_spec p then []
                                        else remove_records chk (console_error s) users p)
                    (concat (map (\<lambda>(root, dirs, files). map (os_path_join root) files) triples))),
       stdout := stdout s @ map (Print_Removing users)
                   (filter (\<lambda>p. \<not> excluded exclude_spec p
                                \<and> removal_announced chk (console_error s) users p)
                      (concat (map (\<lambda>(root, dirs, files). map (os_path_join root) files) triples)))\<rparr>"
proof (induction triples arbitrary: s)
  case Nil
  show ?case by simp
next
  case (Cons t triples)
  obtain root dirs files where t: "t = (root, dirs, files)"
    by (cases t) auto
  have step: "fold (\<lambda>(root, dirs, files). fold (remove_file chk users exclude_spec root) files)
          (t # triples) s =
        fold (\<lambda>(root, dirs, files). fold (remove_file chk users exclude_spec root) files)
          triples (fold (remove_file chk users exclude_spec root) files s)"
    by (simp add: t)
  have c: "console_error (fold (remove_file chk users exclude_spec root) files s) =
        console_error s"
    by (simp add: fold_remove_file)
  show ?case
    unfolding step Cons.IH c by (simp add: t fold_remove_file)
qed

lemma remove_permissions_with_eq:
  "remove_permissions_with chk directory users exclude_spec s =
     s\<lparr>log := log s @ concat (map (remove_records chk (console_error s) users)
                                (scanned s directory exclude_spec)),
       stdout := stdout s @ map (Print_Removing users)
                   (filter (removal_announced chk (console_error s) users)
                      (scanned s directory exclude_spec))\<rparr>"
  by (simp add: remove_permissions_with_def fold_remove_walk scanned_def visited_def
      concat_map_if_filter)

lemma placeholder_check_records:
  "concat (map (check_records placeholder_check users) paths) =
     map (\<lambda>p. (INFO, UsersFoundWithPermissions p))
       (filter (\<lambda>p. placeholder_check users p = Inr True) paths)"
  by (induction paths) (auto simp: check_records_def placeholder_check_def)

lemma placeholder_remove_records:
  "concat (map (remove_records placeholder_check err users) paths) =
     map (removal_record err users)
       (filter (\<lambda>p. placeholder_check users p = Inr True) paths)"
  by (induction paths) (auto simp: remove_records_def placeholder_check_def)

lemma placeholder_removal_announced:
  "filter (removal_announced placeholder_check err users) paths =
     filter (\<lambda>p. err (Print_Removing users p) = None)
       (filter (\<lambda>p. placeholder_check users p = Inr True) paths)"
  by (induction paths) (auto simp: removal_announced_def)

lemma check_permissions_eq:
  "check_permissions directory users exclude_spec s =
     (filter (\<lambda>p. placeholder_check users p = Inr True) (scanned s directory exclude_spec),
      s\<lparr>log := log s @ map (\<lambda>p. (INFO, UsersFoundWithPermissions p))
                (filter (\<lambda>p. placeholder_check users p = Inr True)
                   (scanned s directory exclude_spec))\<rparr>)"
  by (simp add: check_permissions_def check_permissions_with_eq placeholder_check_records)

lemma remove_permissions_eq:
  "remove_permissions directory users exclude_spec s =
     s\<lparr>log := log s @ map (removal_record (console_error s) users)
                (filter (\<lambda>p. placeholder_check users p = Inr True)
                   (scanned s directory exclude_spec)),
       stdout := stdout s @ map (Print_Removing users)
                   (filter (\<lambda>p. console_error s (Print_Removing users p) = None)
                      (filter (\<lambda>p. placeholder_check users p = Inr True)
                         (scanned s directory exclude_spec)))\<rparr>"
  by (simp add: remove_permissions_def remove_permissions_with_eq placeholder_remove_records
      placeholder_removal_announced)

lemma visited_frame [simp]:
  "visited (s\<lparr>log := l\<rparr>) directory = visited s directory"
  "visited (s\<lparr>stdout := out\<rparr>) directory = visited s directory"
  "visited (s\<lparr>console_error := err\<rparr>) directory = visited s directory"
  by (simp_all add: visited_def walk_def)

lemma scanned_frame [simp]:
  "scanned (s\<lparr>log := l\<rparr>) directory exclude_spec = scanned s directory exclude_spec"
  "scanned (s\<lparr>stdout := out\<rparr>) directory exclude_spec = scanned s directory exclude_spec"
  "scanned (s\<lparr>console_error := err\<rparr>) directory exclude_spec = scanned s directory exclude_spec"
  by (simp_all add: scanned_def)

lemma concat_map_concat:
  "concat (map f (concat xss)) = concat (map (\<lambda>xs. concat (map f xs)) xss)"
  by (induction xss) auto

lemma files_under_Dir:
  "files_under dirpath (Dir entries) =
     map (os_path_join dirpath) [name. (name, n) \<leftarrow> entries, \<not> is_dir n]
     @ concat (map (\<lambda>(name, n). files_under (os_path_join dirpath name) n) entries)"
  by (simp add: files_under_def concat_map_concat case_prod_unfold comp_def)

section \<open>The examples, evaluated\<close>

lemma visited_owned:
  "visited (srv_state owned_tree) ''/srv'' = [''/srv/other.txt'', ''/srv/alice_owned.txt'']"
  by (simp add: visited_def walk_def srv_state_def owned_tree_def os_path_join_def)

lemma visited_carol:
  "visited (srv_state carol_tree) ''/srv'' =
     [''/srv/ALICE.txt'', ''/srv/readme'', ''/srv/bobsled/notes.txt'']"
  by (simp add: visited_def walk_def srv_state_def carol_tree_def os_path_join_def)

lemma visited_tmp: "visited (srv_state tmp_tree) ''/srv'' = [''/srv/alice.tmp'']"
  by (simp add: visited_def walk_def srv_state_def tmp_tree_def os_path_join_def)

lemma visited_cafe: "visited ascii_state ''/srv'' = [cafe_path]"
  by (simp add: ascii_state_def visited_def walk_def srv_state_def cafe_tree_def cafe_name_def
      cafe_path_def os_path_join_def)

lemma placeholder_alice_owned:
  "placeholder_check [''alice''] ''/srv/alice_owned.txt'' = Inr True"
  by (simp add: placeholder_check_def lower_simps)

lemma placeholder_alice_other:
  "placeholder_check [''alice''] ''/srv/other.txt'' = Inr False"
  by (simp add: placeholder_check_def lower_simps)

lemma placeholder_ALICE:
  "placeholder_check [''alice'', ''bob''] ''/srv/ALICE.txt'' = Inr True"
  by (simp add: placeholder_check_def lower_simps)

lemma placeholder_bobsled:
  "placeholder_check [''alice'', ''bob''] ''/srv/bobsled/notes.txt'' = Inr True"
  by (simp add: placeholder_check_def lower_simps)

lemma placeholder_readme:
  "placeholder_check [''alice'', ''bob''] ''/srv/readme'' = Inr False"
  by (simp add: placeholder_check_def lower_simps)

lemma placeholder_alice_tmp:
  "placeholder_check [''alice''] ''/srv/alice.tmp'' = Inr True"
  by (simp add: placeholder_check_def lower_simps)

lemma placeholder_cafe:
  "placeholder_check [''alice''] cafe_path = Inr True"
  by (simp add: placeholder_check_def cafe_path_def lower_simps)

lemma ascii_console_cafe:
  "console_error ascii_state (Print_Removing [''alice''] cafe_path) = Some OtherException"
  by (simp add: ascii_state_def ascii_console_def cafe_path_def)

lemma srv_state_simps:
  "fs (srv_state t) = (\<lambda>path. if path = ''/srv'' then Some t else None)"
  "file_lines (srv_state t) =
     (\<lambda>path. if path = ''users.txt'' then Inr [''alice '', '' '', '' bob'']
             else if path = ''exclude.txt'' then Inr [''*.tmp'']
             else Inl FileNotFoundError)"
  "console_error (srv_state t) = (\<lambda>line. None)"
  "log (srv_state t) = []"
  "stdout (srv_state t) = []"
  by (simp_all add: srv_state_def)

lemma ascii_state_simps:
  "log ascii_state = []"
  "stdout ascii_state = []"
  by (simp_all add: ascii_state_def srv_state_simps)


lemma load_users_example:
  "load_users ''users.txt'' (srv_state t) = (Inr [''alice'', ''bob''], srv_state t)"
  by (simp add: load_users_def srv_state_def strip_def isspace_def)

section \<open>The setup of main\<close>

lemma same_world_refl [simp]: "same_world s s"
  by (simp add: same_world_def)

lemma same_world_trans: "same_world s s1 \<Longrightarrow> same_world s1 s2 \<Longrightarrow> same_world s s2"
  by (simp add: same_world_def)

lemma same_world_log [simp]: "same_world s (s1\<lparr>log := l\<rparr>) = same_world s s1"
  by (simp add: same_world_def walk_started_def)

lemma os_path_isdir_frame [simp]:
  "os_path_isdir (s\<lparr>log := l\<rparr>) path = os_path_isdir s path"
  "os_path_isdir (s\<lparr>stdout := out\<rparr>) path = os_path_isdir s path"
  by (simp_all add: os_path_isdir_def)

lemma os_path_isdir_srv:
  "os_path_isdir (srv_state t) path = (path = ''/srv'' \<and> (case t of Dir entries \<Rightarrow> True | _ \<Rightarrow> False))"
  by (simp add: os_path_isdir_def srv_state_simps)

lemma os_path_isdir_same_world: "same_world s s1 \<Longrightarrow> os_path_isdir s1 path = os_path_isdir s path"
  by (simp add: same_world_def os_path_isdir_def)

lemma log_file_opened_frame [simp]:
  "file_lines (log_file_opened a s) = file_lines s"
  "open_handler (log_file_opened a s) = open_handler s"
  "console_error (log_file_opened a s) = console_error s"
  "stdout (log_file_opened a s) = stdout s"
  "log (log_file_opened a s) = log s"
  by (simp_all add: log_file_opened_def split: option.split sum.split)

lemma main_log_file_cases:
  "case main_log_file a s of
     Inl (c, s1) \<Rightarrow> c \<noteq> Returned \<and> same_world (log_file_opened a s) s1
   | Inr s1 \<Rightarrow> same_world (log_file_opened a s) s1"
  by (simp add: main_log_file_def log_file_opened_def logging_info_eq same_world_def
      walk_started_def split: option.split sum.split)

lemma main_users_cases:
  "case main_users a s of
     Inl (c, s1) \<Rightarrow> c \<noteq> Returned \<and> same_world s s1
   | Inr (users, s1) \<Rightarrow> same_world s s1 \<and> \<not> isl (file_lines s (arg_users a))"
  by (simp add: main_users_def load_users_def logging_info_eq logging_error_eq rprint_def
      console_write_def same_world_def walk_started_def
      split: sum.split exn.split option.split)

lemma main_excludes_cases:
  "case main_excludes from_lines a s of
     Inl (c, s1) \<Rightarrow> c \<noteq> Returned \<and> same_world s s1
   | Inr (exclude_spec, s1) \<Rightarrow>
       same_world s s1 \<and>
       (case arg_exclude a of
          None \<Rightarrow> True
        | Some path \<Rightarrow> path = [] \<or> \<not> isl (file_lines s path))"
  by (simp add: main_excludes_def load_excludes_def logging_info_eq logging_error_eq rprint_def
      console_write_def same_world_def walk_started_def
      split: option.split sum.split exn.split)

lemma main_directory_cases:
  "case main_directory a s of
     Inl (c, s1) \<Rightarrow> c \<noteq> Returned \<and> same_world s s1
   | Inr s1 \<Rightarrow> s1 = s \<and> os_path_isdir s (arg_directory a)"
  by (simp add: main_directory_def logging_error_eq rprint_def console_write_def
      same_world_def walk_started_def split: option.split)

lemma main_setup_cases:
  "case main_setup from_lines a s of
     Inl (c, s1) \<Rightarrow> c \<noteq> Returned \<and> same_world (log_file_opened a s) s1
   | Inr (users, exclude_spec, s1) \<Rightarrow>
       same_world (log_file_opened a s) s1 \<and> \<not> setup_error a s"
proof (cases "main_log_file a s")
  case (Inl stop)
  then show ?thesis
    using main_log_file_cases [where a = a and s = s]
    by (cases stop) (simp add: main_setup_def)
next
  case s1: (Inr s1)
  then have w1: "same_world (log_file_opened a s) s1"
    using main_log_file_cases [where a = a and s = s] by simp
  show ?thesis
  proof (cases "main_users a s1")
    case (Inl stop)
    then show ?thesis
      using main_users_cases [where a = a and s = s1] s1 w1
      by (cases stop) (auto simp: main_setup_def intro: same_world_trans)
  next
    case (Inr r2)
    obtain users s2 where r2: "r2 = (users, s2)" by (cases r2) auto
    have w2: "same_world s1 s2" and u: "\<not> isl (file_lines s1 (arg_users a))"
      using main_users_cases [where a = a and s = s1] Inr r2 by simp_all
    have w02: "same_world (log_file_opened a s) s2"
      using w1 w2 by (rule same_world_trans)
    show ?thesis
    proof (cases "main_excludes from_lines a s2")
      case (Inl stop)
      then show ?thesis
        using main_excludes_cases [where from_lines = from_lines and a = a and s = s2] s1 Inr r2 w02
        by (cases stop) (auto simp: main_setup_def intro: same_world_trans)
    next
      case r3: (Inr r3)
      obtain exclude_spec s3 where r3': "r3 = (exclude_spec, s3)" by (cases r3) auto
      have w3: "same_world s2 s3"
        and x: "case arg_exclude a of None \<Rightarrow> True
                | Some path \<Rightarrow> path = [] \<or> \<not> isl (file_lines s2 path)"
        using main_excludes_cases [where from_lines = from_lines and a = a and s = s2] r3 r3'
        by simp_all
      have w03: "same_world (log_file_opened a s) s3"
        using w02 w3 by (rule same_world_trans)
      show ?thesis
      proof (cases "main_directory a s3")
        case (Inl stop)
        then show ?thesis
          using main_directory_cases [where a = a and s = s3] s1 Inr r2 r3 r3' w03
          by (cases stop) (auto simp: main_setup_def intro: same_world_trans)
      next
        case r4: (Inr s4)
        then have d: "os_path_isdir s3 (arg_directory a)" and s4: "s4 = s3"
          using main_directory_cases [where a = a and s = s3] by simp_all
        have "os_path_isdir (log_file_opened a s) (arg_directory a)"
          using d w03 by (simp add: os_path_isdir_same_world)
        moreover have "\<not> isl (file_lines s (arg_users a))"
          using u w1 by (simp add: same_world_def)
        moreover have "case arg_exclude a of None \<Rightarrow> True
                | Some path \<Rightarrow> path = [] \<or> \<not> isl (file_lines s path)"
          using x w02 by (auto simp: same_world_def split: option.splits)
        ultimately have "\<not> setup_error a s"
          by (auto simp: setup_error_def split: option.splits)
        then show ?thesis
          using s1 Inr r2 r3 r3' r4 s4 w03 by (simp add: main_setup_def)
      qed
    qed
  qed
qed

lemma main_setup_error:
  assumes "setup_error a s"
  shows "main_setup from_lines a s = Inl (main from_lines a s)
     \<and> fst (main from_lines a s) \<noteq> Returned
     \<and> same_world (log_file_opened a s) (snd (main from_lines a s))"
  using main_setup_cases [where from_lines = from_lines and a = a and s = s] assms
  by (auto simp: main_def split: sum.splits prod.splits)


lemma main_missing_example:
  "main tmp_from_lines missing_args (srv_state owned_tree) =
     (SystemExit 1,
      (srv_state owned_tree)
        \<lparr>log := [(ERROR, UserFileNotFound ''missing.txt'')],
         stdout := [Red_UserFileNotFound]\<rparr>)"
  by (simp add: main_def main_setup_def main_log_file_def main_users_def load_users_def
      missing_args_def audit_args_def srv_state_def logging_error_eq rprint_def
      console_write_def)

lemma main_nowhere_example:
  "main tmp_from_lines nowhere_args (srv_state owned_tree) =
     (SystemExit 1,
      (srv_state owned_tree)
        \<lparr>log := [(INFO, LoadedUsers ''users.txt'' [''alice'', ''bob'']),
                 (ERROR, DirectoryNotFound ''/nowhere'')],
         stdout := [Red_DirectoryNotFound ''/nowhere'']\<rparr>)"
  by (simp add: main_def main_setup_def main_log_file_def main_users_def load_users_example
      main_excludes_def main_directory_def os_path_isdir_srv nowhere_args_def audit_args_def
      logging_error_eq logging_info_eq rprint_def console_write_def srv_state_simps)


section \<open>The claims\<close>

text \<open>
  C1 (amended). The removal pass removes no grant at all: it leaves the file system, and
  with it every grant of every file, targeted or not, as it found it, and only announces
  a removal on the console (and in the log) for each matching path whose line the console
  takes. A second run on the same tree raises no error and announces the same paths
  again; the program has no not-found outcome.
\<close>

theorem remove_permissions_changes_no_grant:
  "fs (remove_permissions directory users exclude_spec s) = fs s
   \<and> stdout (remove_permissions directory users exclude_spec
               (remove_permissions directory users exclude_spec s)) =
       stdout s
       @ map (Print_Removing users)
           (filter (\<lambda>p. console_error s (Print_Removing users p) = None)
              (fst (check_permissions directory users exclude_spec s)))
       @ map (Print_Removing users)
           (filter (\<lambda>p. console_error s (Print_Removing users p) = None)
              (fst (check_permissions directory users exclude_spec s)))"
  by (simp add: check_permissions_eq remove_permissions_eq)

text \<open>
  C1 as stated fails: with \<open>alice\<close> revoked, the pass announces the removal for
  \<open>/srv/alice_owned.txt\<close>, and afterwards the file still carries the owner grant of
  \<open>alice\<close> where the claim wants only the read grant of \<open>bob\<close> left; the second run
  announces the same removal once more.
\<close>

theorem remediation_leaves_targeted_grant:
  "stdout (remove_permissions ''/srv'' [''alice''] None (srv_state owned_tree)) =
     [Print_Removing [''alice''] ''/srv/alice_owned.txt'']
   \<and> fs (remove_permissions ''/srv'' [''alice''] None (srv_state owned_tree)) ''/srv'' =
       Some (Dir [(''other.txt'', File [(''bob'', Owner)]),
                  (''alice_owned.txt'', File [(''alice'', Owner), (''bob'', ACL_read)])])
   \<and> without_targeted [''alice''] [(''alice'', Owner), (''bob'', ACL_read)] =
       [(''bob'', ACL_read)]
   \<and> stdout (remove_permissions ''/srv'' [''alice''] None
               (remove_permissions ''/srv'' [''alice''] None (srv_state owned_tree))) =
       [Print_Removing [''alice''] ''/srv/alice_owned.txt'',
        Print_Removing [''alice''] ''/srv/alice_owned.txt'']"
  by (simp add: remove_permissions_eq scanned_def visited_owned excluded_def
      placeholder_alice_owned placeholder_alice_other without_targeted_def targeted_def
      srv_state_simps)
     (simp add: owned_tree_def)

text \<open>
  C2 (amended). A path is matched exactly when it is scanned and some user name,
  lowercased, occurs as a contiguous substring of the lowercased path: the comparison is
  case-insensitive, and it is made against the path of the file, not against a principal
  of the entry.
\<close>

theorem match_iff_caseless_substring:
  "filepath \<in> set (fst (check_permissions directory users exclude_spec s)) \<longleftrightarrow>
     filepath \<in> set (scanned s directory exclude_spec) \<and>
     (\<exists>user \<in> set users. \<exists>pre suf. lower filepath = pre @ lower user @ suf)"
  by (auto simp: check_permissions_eq placeholder_check_def list_ex_iff contains_iff)

text \<open>
  C2 as stated fails: every file of \<open>carol_tree\<close> belongs to \<open>carol\<close>, yet \<open>alice\<close>
  matches \<open>/srv/ALICE.txt\<close>, which differs from it in letter case, and \<open>bob\<close> matches
  \<open>/srv/bobsled/notes.txt\<close>, an unrelated path that contains it.
\<close>

theorem caseless_substring_matches_unrelated_paths:
  "fst (check_permissions ''/srv'' [''alice'', ''bob''] None (srv_state carol_tree)) =
     [''/srv/ALICE.txt'', ''/srv/bobsled/notes.txt'']"
  by (simp add: check_permissions_eq scanned_def visited_carol excluded_def
      placeholder_ALICE placeholder_bobsled placeholder_readme)






text \<open>
  C5. Without an exclude file \<open>main\<close> passes no \<open>PathSpec\<close> on, and then the exclusion
  test is false for every path: every visited path is scanned, in the audit and in the
  removal pass.
\<close>

theorem no_exclude_file_excludes_nothing:
  "excluded None filepath = False
   \<and> scanned s directory None = visited s directory
   \<and> fst (check_permissions directory users None s) =
       filter (\<lambda>p. placeholder_check users p = Inr True) (visited s directory)
   \<and> log (remove_permissions directory users None s) =
       log s @ map (removal_record (console_error s) users)
                 (filter (\<lambda>p. placeholder_check users p = Inr True) (visited s directory))
   \<and> (arg_exclude a = None \<longrightarrow> main_excludes from_lines a s = Inr (None, s))"
  by (simp add: excluded_def scanned_def check_permissions_eq remove_permissions_eq
      main_excludes_def)

text \<open>
  C5 at an input: no exclude file on the command line; the file \<open>/srv/alice.tmp\<close> is
  scanned and matched.
\<close>

theorem no_exclude_file_excludes_nothing_witness:
  "arg_exclude audit_args = None
   \<and> main_excludes tmp_from_lines audit_args (srv_state tmp_tree) =
       Inr (None, srv_state tmp_tree)
   \<and> scanned (srv_state tmp_tree) ''/srv'' None = [''/srv/alice.tmp'']
   \<and> fst (check_permissions ''/srv'' [''alice''] None (srv_state tmp_tree)) =
       [''/srv/alice.tmp'']"
proof -
  have n: "arg_exclude audit_args = None"
    by (simp add: audit_args_def)
  show ?thesis
    using no_exclude_file_excludes_nothing
      [where s = "srv_state tmp_tree" and directory = "''/srv''" and users = "[''alice'']"
        and a = audit_args and from_lines = tmp_from_lines]
      n
    by (simp add: visited_tmp placeholder_alice_tmp)
qed

text \<open>
  C6. Whatever the users, the exclusions and the tree, every path in the list that
  \<open>check_permissions\<close> returns is a path the traversal visited: the matches are a
  subset of the entries of the walk.
\<close>

theorem matched_subset_visited:
  "set (fst (check_permissions directory users exclude_spec s)) \<subseteq> set (visited s directory)"
  by (auto simp: check_permissions_eq scanned_def)

text \<open>
  C7. When the target path is not a directory at the test of \<open>main\<close> (it does not exist,
  or it names something else), \<open>main\<close> ends in its setup with a failure: no walk is
  announced, neither pass is called, and the file system is as the opening of the log
  file left it. When the rest of the setup goes through, the failure is \<open>sys.exit(1)\<close>
  after the directory-not-found message on the console and in the log, or the exception
  of the console when it refuses the message.
\<close>

theorem invalid_root_fails_fast:
  assumes "\<not> os_path_isdir (log_file_opened a s) (arg_directory a)" and "\<not> walk_started s"
  shows "main_setup from_lines a s = Inl (main from_lines a s)
     \<and> fst (main from_lines a s) \<noteq> Returned
     \<and> \<not> walk_started (snd (main from_lines a s))
     \<and> fs (snd (main from_lines a s)) = fs (log_file_opened a s)
     \<and> (main_log_file a s = Inr s1 \<and> main_users a s1 = Inr (users, s2)
          \<and> main_excludes from_lines a s2 = Inr (exclude_spec, s3) \<longrightarrow>
        main from_lines a s =
          (case rprint (Red_DirectoryNotFound (arg_directory a)) s3 of
             Inr s4 \<Rightarrow> (SystemExit 1, logging_error (DirectoryNotFound (arg_directory a)) s4)
           | Inl (e, s4) \<Rightarrow> (Uncaught e, s4)))"
proof -
  have "setup_error a s"
    using assms(1) by (simp add: setup_error_def)
  then have 1: "main_setup from_lines a s = Inl (main from_lines a s)
      \<and> fst (main from_lines a s) \<noteq> Returned
      \<and> same_world (log_file_opened a s) (snd (main from_lines a s))"
    by (rule main_setup_error)
  have 2: "main from_lines a s =
          (case rprint (Red_DirectoryNotFound (arg_directory a)) s3 of
             Inr s4 \<Rightarrow> (SystemExit 1, logging_error (DirectoryNotFound (arg_directory a)) s4)
           | Inl (e, s4) \<Rightarrow> (Uncaught e, s4))"
    if a1: "main_log_file a s = Inr s1" and a2: "main_users a s1 = Inr (users, s2)"
      and a3: "main_excludes from_lines a s2 = Inr (exclude_spec, s3)"
  proof -
    have "same_world (log_file_opened a s) s1"
      using main_log_file_cases [where a = a and s = s] a1 by simp
    moreover have "same_world s1 s2"
      using main_users_cases [where a = a and s = s1] a2 by simp
    moreover have "same_world s2 s3"
      using main_excludes_cases [where from_lines = from_lines and a = a and s = s2] a3 by simp
    ultimately have "same_world (log_file_opened a s) s3"
      by (blast intro: same_world_trans)
    then have "\<not> os_path_isdir s3 (arg_directory a)"
      using assms(1) by (simp add: os_path_isdir_same_world)
    then show ?thesis
      by (simp add: main_def main_setup_def a1 a2 a3 main_directory_def
          split: sum.split)
  qed
  show ?thesis
    using 1 2 assms(2) by (simp add: same_world_def walk_started_def)
qed

text \<open>
  C7 at an input: the target \<open>/nowhere\<close> does not exist; the users are loaded, then the
  run stops with exit status 1.
\<close>

theorem invalid_root_fails_fast_witness:
  "\<not> os_path_isdir (log_file_opened nowhere_args (srv_state owned_tree))
        (arg_directory nowhere_args)
   \<and> \<not> walk_started (srv_state owned_tree)
   \<and> fst (main tmp_from_lines nowhere_args (srv_state owned_tree)) \<noteq> Returned
   \<and> \<not> walk_started (snd (main tmp_from_lines nowhere_args (srv_state owned_tree)))
   \<and> fs (snd (main tmp_from_lines nowhere_args (srv_state owned_tree))) =
       fs (srv_state owned_tree)
   \<and> main tmp_from_lines nowhere_args (srv_state owned_tree) =
       (SystemExit 1,
        (srv_state owned_tree)
          \<lparr>log := [(INFO, LoadedUsers ''users.txt'' [''alice'', ''bob'']),
                   (ERROR, DirectoryNotFound ''/nowhere'')],
           stdout := [Red_DirectoryNotFound ''/nowhere'']\<rparr>)"
proof -
  have o: "log_file_opened nowhere_args (srv_state owned_tree) = srv_state owned_tree"
    by (simp add: log_file_opened_def nowhere_args_def audit_args_def)
  have d: "\<not> os_path_isdir (log_file_opened nowhere_args (srv_state owned_tree))
              (arg_directory nowhere_args)"
    by (simp add: log_file_opened_def os_path_isdir_def nowhere_args_def audit_args_def
        srv_state_simps)
  have w: "\<not> walk_started (srv_state owned_tree)"
    by (simp add: walk_started_def srv_state_simps)
  show ?thesis
    using invalid_root_fails_fast [OF d w, where from_lines = tmp_from_lines] d w
    by (simp add: main_nowhere_example o)
qed

text \<open>
  C8 (amended). The walk does not sort: it visits the file names of a directory in the
  order of its listing, then each subdirectory in the order of the listing, whatever the
  names are. Two passes over states that show the same tree return their matches in
  the same order.
\<close>

theorem visit_order_is_listing_order:
  assumes "fs s directory = Some (Dir entries)"
  shows "visited s directory =
       map (os_path_join directory) [name. (name, n) \<leftarrow> entries, \<not> is_dir n]
       @ concat (map (\<lambda>(name, n). files_under (os_path_join directory name) n) entries)
     \<and> (fs s' = fs s \<longrightarrow>
          fst (check_permissions directory users exclude_spec s') =
          fst (check_permissions directory users exclude_spec s))"
proof -
  have "visited s directory = files_under directory (Dir entries)"
    using assms by (simp add: visited_def walk_def files_under_def)
  moreover have "fs s' = fs s \<Longrightarrow> scanned s' directory exclude_spec = scanned s directory exclude_spec"
    by (simp add: scanned_def visited_def walk_def)
  ultimately show ?thesis
    by (simp add: files_under_Dir check_permissions_eq)
qed

text \<open>
  C8 (amended) at an input: \<open>carol_tree\<close>, before and after a line has been printed.
\<close>

theorem visit_order_is_listing_order_witness:
  "fs (srv_state carol_tree) ''/srv'' =
     Some (Dir [(''ALICE.txt'', File [(''carol'', Owner)]),
                (''bobsled'', Dir [(''notes.txt'', File [(''carol'', Owner)])]),
                (''readme'', File [(''carol'', Owner)])])
   \<and> visited (srv_state carol_tree) ''/srv'' =
       [''/srv/ALICE.txt'', ''/srv/readme'', ''/srv/bobsled/notes.txt'']
   \<and> fst (check_permissions ''/srv'' [''alice'', ''bob''] None
            ((srv_state carol_tree)\<lparr>stdout := [Yellow_CheckingPermissions]\<rparr>)) =
       fst (check_permissions ''/srv'' [''alice'', ''bob''] None (srv_state carol_tree))"
proof -
  have h: "fs (srv_state carol_tree) ''/srv'' =
     Some (Dir [(''ALICE.txt'', File [(''carol'', Owner)]),
                (''bobsled'', Dir [(''notes.txt'', File [(''carol'', Owner)])]),
                (''readme'', File [(''carol'', Owner)])])"
    by (simp add: srv_state_simps carol_tree_def)
  have "fst (check_permissions ''/srv'' [''alice'', ''bob''] None
            ((srv_state carol_tree)\<lparr>stdout := [Yellow_CheckingPermissions]\<rparr>)) =
       fst (check_permissions ''/srv'' [''alice'', ''bob''] None (srv_state carol_tree))"
    using visit_order_is_listing_order
      [OF h, where s' = "(srv_state carol_tree)\<lparr>stdout := [Yellow_CheckingPermissions]\<rparr>"
        and users = "[''alice'', ''bob'']" and exclude_spec = None]
    by simp
  then show ?thesis
    using h visited_carol by simp
qed

text \<open>
  C8 as stated fails: the listing of \<open>/srv\<close> gives \<open>other.txt\<close> before
  \<open>alice_owned.txt\<close>, and that is the order of the matches, not the order of the names.
\<close>

theorem walk_does_not_sort_names:
  "fst (check_permissions ''/srv'' [''txt''] None (srv_state owned_tree)) =
     [''/srv/other.txt'', ''/srv/alice_owned.txt'']"
  by (simp add: check_permissions_eq scanned_def visited_owned excluded_def
      placeholder_check_def lower_simps)

text \<open>
  C9 (amended). The audit pass leaves every directory, file and grant as it found them,
  and it prints nothing; besides returning its list it has one more effect, a log record
  at level \<open>INFO\<close> for each path of the list, in the order of the list. The handlers
  of the root logger write the record out: to \<open>stderr\<close>, and to the log file once
  \<open>main\<close> has added the file handler.
\<close>

theorem audit_only_adds_log_records:
  "snd (check_permissions directory users exclude_spec s) =
     s\<lparr>log := log s @ map (\<lambda>p. (INFO, UsersFoundWithPermissions p))
                        (fst (check_permissions directory users exclude_spec s))\<rparr>
   \<and> fs (snd (check_permissions directory users exclude_spec s)) = fs s
   \<and> stdout (snd (check_permissions directory users exclude_spec s)) = stdout s"
  by (simp add: check_permissions_eq)

text \<open>
  C9 as stated fails: the returned list is not the only effect. On \<open>owned_tree\<close> with
  \<open>alice\<close> revoked the state after the audit differs from the state before it, by the
  log record of the match.
\<close>

theorem audit_logs_each_match:
  "snd (check_permissions ''/srv'' [''alice''] None (srv_state owned_tree)) \<noteq> srv_state owned_tree
   \<and> log (snd (check_permissions ''/srv'' [''alice''] None (srv_state owned_tree))) =
       [(INFO, UsersFoundWithPermissions ''/srv/alice_owned.txt'')]"
proof -
  have "log (snd (check_permissions ''/srv'' [''alice''] None (srv_state owned_tree))) =
       [(INFO, UsersFoundWithPermissions ''/srv/alice_owned.txt'')]"
    by (simp add: check_permissions_eq scanned_def visited_owned excluded_def
        placeholder_alice_owned placeholder_alice_other srv_state_simps)
  moreover have "log (srv_state owned_tree) = []"
    by (simp add: srv_state_simps)
  ultimately show ?thesis by force
qed

text \<open>
  C10 (amended). The removal pass selects exactly the paths the audit pass returns, in
  the same order, since both apply the same exclusion test and the same match: it logs
  one record for each path of the list \<open>check_permissions\<close> returns on the same
  directory, users and exclusions. The record is the removal when the \<open>print\<close> of the
  path succeeds; when the \<open>print\<close> raises, nothing is printed for the path and the
  record is the error. So the paths that the pass announces are those of the list whose
  line the console takes.
\<close>

theorem removal_selects_audit_matches:
  "log (remove_permissions directory users exclude_spec s) =
     log s @ map (removal_record (console_error s) users)
               (fst (check_permissions directory users exclude_spec s))
   \<and> stdout (remove_permissions directory users exclude_spec s) =
     stdout s @ map (Print_Removing users)
                  (filter (\<lambda>p. console_error s (Print_Removing users p) = None)
                     (fst (check_permissions directory users exclude_spec s)))"
  by (simp add: check_permissions_eq remove_permissions_eq)

text \<open>
  C10 as stated fails: on a console whose encoding is ASCII, the audit returns the file
  whose name has an accented letter, and the removal pass does not act on it: the
  \<open>print\<close> raises, nothing is announced, and the log holds an error in place of the
  removal.
\<close>

theorem failed_print_is_no_removal:
  "fst (check_permissions ''/srv'' [''alice''] None ascii_state) = [cafe_path]
   \<and> stdout (remove_permissions ''/srv'' [''alice''] None ascii_state) = []
   \<and> log (remove_permissions ''/srv'' [''alice''] None ascii_state) =
       [(ERROR, ErrorRemovingPermissions cafe_path OtherException)]"
  by (simp add: check_permissions_eq remove_permissions_eq scanned_def visited_cafe
      excluded_def placeholder_cafe removal_record_def ascii_console_cafe ascii_state_simps)

end
